theory Spec2Isabelle
  imports Main "HOL-Library.Word"
begin

unbundle bit_operations_syntax

section \<open>Coordinates and octant addressing\<close>

text \<open>
  The Go source addresses voxels with \<^verbatim>\<open>uint16\<close> coordinates and a \<^verbatim>\<open>uint8\<close> side
  shift.  \<^verbatim>\<open>color.Gray\<close> is a struct with the single \<^verbatim>\<open>uint8\<close> field \<^verbatim>\<open>Y\<close>, so an
  intensity is a byte.  \<^verbatim>\<open>Cube\<close> embeds \<^verbatim>\<open>Point\<close>, which is a record extension.
\<close>

type_synonym pixel = "8 word"

record Point =
  X :: "16 word"
  Y :: "16 word"
  Z :: "16 word"

record Cube = Point +
  SideShift :: "8 word"

text \<open>
  \<^verbatim>\<open>octIndex\<close>.  The shift count \<^verbatim>\<open>cube.SideShift - 1\<close> is a \<^verbatim>\<open>uint8\<close> and wraps to 255
  at \<^verbatim>\<open>SideShift = 0\<close>.  Go shifts produce 0 once the count reaches the width of the
  operand, which is what \<open>push_bit\<close> and \<open>drop_bit\<close> do on a 16-bit word.  The index
  is a Go \<^verbatim>\<open>int\<close> that only receives the bits 0, 1 and 2; it is a natural number here.
\<close>

definition octIndex :: "Cube \<Rightarrow> nat \<times> Cube" where
  "octIndex cube =
     (let n = unat (SideShift cube - 1);
          side = (push_bit n 1 :: 16 word);
          isx = (drop_bit n (X cube) > 0);
          isy = (drop_bit n (Y cube) > 0);
          isz = (drop_bit n (Z cube) > 0);
          index = (0::nat);
          index = (if isx then index OR push_bit 0 1 else index);
          index = (if isy then index OR push_bit 1 1 else index);
          index = (if isz then index OR push_bit 2 1 else index);
          here = \<lparr>X = X cube AND (side - 1), Y = Y cube AND (side - 1),
                  Z = Z cube AND (side - 1), SideShift = SideShift cube - 1\<rparr>
      in (index, here))"

section \<open>Nodes\<close>

text \<open>
  A Go array \<^verbatim>\<open>[8]T\<close> has exactly eight slots: \<open>'a oct\<close>.  \<open>oct_nth\<close> reads a slot
  and \<open>oct_upd\<close> stores into one; every index the program uses comes from
  \<open>octIndex\<close> or from a loop over \<open>0..7\<close>.
\<close>

datatype 'a oct = Oct 'a 'a 'a 'a 'a 'a 'a 'a

fun oct_nth :: "'a oct \<Rightarrow> nat \<Rightarrow> 'a" where
  "oct_nth (Oct a0 a1 a2 a3 a4 a5 a6 a7) i =
     (if i = 0 then a0 else if i = 1 then a1 else if i = 2 then a2 else if i = 3 then a3
      else if i = 4 then a4 else if i = 5 then a5 else if i = 6 then a6 else a7)"

fun oct_upd :: "'a oct \<Rightarrow> nat \<Rightarrow> 'a \<Rightarrow> 'a oct" where
  "oct_upd (Oct a0 a1 a2 a3 a4 a5 a6 a7) i v =
     (if i = 0 then Oct v a1 a2 a3 a4 a5 a6 a7
      else if i = 1 then Oct a0 v a2 a3 a4 a5 a6 a7
      else if i = 2 then Oct a0 a1 v a3 a4 a5 a6 a7
      else if i = 3 then Oct a0 a1 a2 v a4 a5 a6 a7
      else if i = 4 then Oct a0 a1 a2 a3 v a5 a6 a7
      else if i = 5 then Oct a0 a1 a2 a3 a4 v a6 a7
      else if i = 6 then Oct a0 a1 a2 a3 a4 a5 v a7
      else Oct a0 a1 a2 a3 a4 a5 a6 v)"

definition oct_fill :: "'a \<Rightarrow> 'a oct" where
  "oct_fill a = Oct a a a a a a a a"

definition oct_sum :: "int oct \<Rightarrow> int" where
  "oct_sum a = (case a of Oct a0 a1 a2 a3 a4 a5 a6 a7 \<Rightarrow> a0 + a1 + a2 + a3 + a4 + a5 + a6 + a7)"

text \<open>
  The interface \<^verbatim>\<open>Vocelish\<close> has three implementations: \<^verbatim>\<open>Vocel1\<close> (one pixel for the
  whole cube), \<^verbatim>\<open>Vocel8\<close> (eight pixels, one per octant) and \<^verbatim>\<open>VocelTree\<close> (eight
  subtrees).  Every node has a single owner in the source (no node is ever stored in
  two slots), so the in-place updates of the methods are the returned values here.
\<close>

datatype Vocelish =
    is_Vocel1: Vocel1 (Vocel1_pixel: pixel)
  | Vocel8 "pixel oct"
  | VocelTree "Vocelish oct"

primrec Vocelish_Nodes :: "Vocelish \<Rightarrow> int" where
  "Vocelish_Nodes (Vocel1 p) = 1"
| "Vocelish_Nodes (Vocel8 ps) = 8"
| "Vocelish_Nodes (VocelTree subtree) = 1 + oct_sum (map_oct Vocelish_Nodes subtree)"

text \<open>
  The measure of the descent of \<^verbatim>\<open>Set\<close>: a \<^verbatim>\<open>Vocel1\<close> that splits at shift \<open>s\<close> becomes
  a \<^verbatim>\<open>Vocel8\<close>, then a \<^verbatim>\<open>VocelTree\<close> of \<^verbatim>\<open>Vocel1\<close> at the same shift, and the write
  continues in a child at shift \<open>s - 1\<close> (modulo 256).
\<close>

primrec descent_bound :: "Vocelish \<Rightarrow> 8 word \<Rightarrow> nat" where
  "descent_bound (Vocel1 p) s = 3 * unat s"
| "descent_bound (Vocel8 ps) s = 2 + 3 * unat (s - 1)"
| "descent_bound (VocelTree subtree) s =
     1 + Max (set_oct (map_oct (\<lambda>f. f (s - 1)) (map_oct descent_bound subtree)))"

lemma oct_nth_in_set: "oct_nth a i \<in> set_oct a"
  by (cases a) simp

lemma finite_set_oct [simp]: "finite (set_oct a)"
  by (cases a) simp

lemma set_oct_nonempty [simp]: "set_oct a \<noteq> {}"
  by (cases a) simp

lemma oct_nth_map: "oct_nth (map_oct f a) i = f (oct_nth a i)"
  by (cases a) simp

lemma oct_nth_fill [simp]: "oct_nth (oct_fill a) i = a"
  by (simp add: oct_fill_def)

lemma map_oct_fill: "map_oct f (oct_fill a) = oct_fill (f a)"
  by (simp add: oct_fill_def)

lemma size_oct_nth [termination_simp]:
  "size (oct_nth (a :: Vocelish oct) i) < Suc (size_oct size a)"
proof -
  have "x \<in> set_oct a \<Longrightarrow> size x < Suc (size_oct size a)" for x
    by (cases a) auto
  then show ?thesis by (simp add: oct_nth_in_set)
qed

lemma octIndex_shift: "SideShift (snd (octIndex cube)) = SideShift cube - 1"
  by (simp add: octIndex_def Let_def)

text \<open>
  \<^verbatim>\<open>Set\<close>, one equation per method.  The loops over the eight slots are
  \<open>list_all\<close> over \<open>[0..<8]\<close> with the loop body's test.  The type assertion
  \<^verbatim>\<open>sub.(*Vocel1)\<close> is the discriminator \<open>is_Vocel1\<close>.
\<close>

function Vocelish_Set :: "Vocelish \<Rightarrow> Cube \<Rightarrow> pixel \<Rightarrow> Vocelish" where
  "Vocelish_Set (Vocel1 p) cube pixel =
     (if SideShift cube = 0 \<or> pixel = p then Vocel1 pixel
      else Vocelish_Set (Vocel8 (oct_fill p)) cube pixel)"
| "Vocelish_Set (Vocel8 ps) cube pixel =
     (let index = fst (octIndex cube) in
      if oct_nth ps index = pixel then Vocel8 ps
      else if SideShift cube = 1 then
        (let allSame = list_all (\<lambda>i. \<not> (index \<noteq> i \<and> oct_nth ps i \<noteq> pixel)) [0..<8]
         in if \<not> allSame then Vocel8 (oct_upd ps index pixel) else Vocel1 pixel)
      else Vocelish_Set (VocelTree (map_oct Vocel1 ps)) cube pixel)"
| "Vocelish_Set (VocelTree subtree) cube pixel =
     (let index = fst (octIndex cube);
          here = snd (octIndex cube);
          subtree = oct_upd subtree index (Vocelish_Set (oct_nth subtree index) here pixel);
          allVocel1 = list_all (\<lambda>i. is_Vocel1 (oct_nth subtree i)) [0..<8]
      in if \<not> allVocel1 then VocelTree subtree
         else
           (let pixels = map_oct Vocel1_pixel subtree;
                allSame = list_all (\<lambda>i. \<not> (i > 0 \<and> oct_nth pixels i \<noteq> oct_nth pixels 0)) [0..<8]
            in if \<not> allSame then Vocel8 pixels else Vocel1 (oct_nth pixels 0)))"
  by pat_completeness auto

termination
proof (relation "measure (\<lambda>(t, cube, pixel). descent_bound t (SideShift cube))")
  show "wf (measure (\<lambda>(t, cube, pixel). descent_bound t (SideShift cube)))" by simp
next
  fix p :: pixel and cube :: Cube and pixel :: pixel
  assume "\<not> (SideShift cube = 0 \<or> pixel = p)"
  then have nz: "unat (SideShift cube) \<noteq> 0" by (simp add: unat_eq_0)
  then have "unat (SideShift cube - 1) = unat (SideShift cube) - 1"
    by (metis unat_eq_zero unat_minus_one)
  with nz
  show "((Vocel8 (oct_fill p), cube, pixel), (Vocel1 p, cube, pixel))
          \<in> measure (\<lambda>(t, cube, pixel). descent_bound t (SideShift cube))"
    by simp
next
  fix ps :: "pixel oct" and cube :: Cube and pixel :: pixel
  show "((VocelTree (map_oct Vocel1 ps), cube, pixel), (Vocel8 ps, cube, pixel))
          \<in> measure (\<lambda>(t, cube, pixel). descent_bound t (SideShift cube))"
    by (simp add: oct.map_comp comp_def oct.set_map image_constant_conv)
next
  fix subtree :: "Vocelish oct" and cube :: Cube and pixel :: pixel and index here
  assume "index = fst (octIndex cube)" "here = snd (octIndex cube)"
  then have "SideShift here = SideShift cube - 1" by (simp add: octIndex_shift)
  moreover have "descent_bound (oct_nth subtree index) (SideShift cube - 1)
      \<le> Max (set_oct (map_oct (\<lambda>f. f (SideShift cube - 1)) (map_oct descent_bound subtree)))"
    using oct_nth_in_set [of "map_oct (\<lambda>f. f (SideShift cube - 1)) (map_oct descent_bound subtree)" index]
    by (simp add: oct_nth_map)
  ultimately
  show "((oct_nth subtree index, here, pixel), (VocelTree subtree, cube, pixel))
          \<in> measure (\<lambda>(t, cube, pixel). descent_bound t (SideShift cube))"
    by simp
qed

fun Vocelish_At :: "Vocelish \<Rightarrow> Cube \<Rightarrow> pixel" where
  "Vocelish_At (Vocel1 p) cube = p"
| "Vocelish_At (Vocel8 ps) cube = oct_nth ps (fst (octIndex cube))"
| "Vocelish_At (VocelTree subtree) cube =
     Vocelish_At (oct_nth subtree (fst (octIndex cube))) (snd (octIndex cube))"


text \<open>
  The eight values of an array are all equal: the condition under which the source
  coalesces to a \<^verbatim>\<open>Vocel1\<close>.
\<close>

definition oct_all_equal :: "'a oct \<Rightarrow> bool" where
  "oct_all_equal a = (case a of Oct a0 a1 a2 a3 a4 a5 a6 a7 \<Rightarrow>
     a0 = a1 \<and> a1 = a2 \<and> a2 = a3 \<and> a3 = a4 \<and> a4 = a5 \<and> a5 = a6 \<and> a6 = a7)"

text \<open>
  The second half of \<^verbatim>\<open>VocelTree.Set\<close>, after the child slot has been replaced: the
  node stays a \<^verbatim>\<open>VocelTree\<close> unless all eight subtrees are \<^verbatim>\<open>Vocel1\<close>; then it becomes
  a \<^verbatim>\<open>Vocel8\<close> of their pixels, or a \<^verbatim>\<open>Vocel1\<close> when the pixels are all the same.
  \<open>Set_VocelTree\<close> below shows that \<open>Vocelish_Set\<close> computes exactly this.
\<close>

definition coalesce :: "Vocelish oct \<Rightarrow> Vocelish" where
  "coalesce subtree =
     (if \<not> list_all (\<lambda>i. is_Vocel1 (oct_nth subtree i)) [0..<8] then VocelTree subtree
      else if \<not> oct_all_equal (map_oct Vocel1_pixel subtree)
           then Vocel8 (map_oct Vocel1_pixel subtree)
           else Vocel1 (oct_nth (map_oct Vocel1_pixel subtree) 0))"

section \<open>The volume\<close>

text \<open>
  Go's \<^verbatim>\<open>int\<close> is taken to be 64 bits wide.  Values of type \<^verbatim>\<open>int\<close> are integers here,
  and \<open>int64\<close> is the two's complement wrap-around of an arithmetic result.  The
  expression \<^verbatim>\<open>1 << n\<close> on \<^verbatim>\<open>int\<close> is \<open>shl1 n\<close>: it is negative for \<open>n = 63\<close> and 0
  from \<open>n = 64\<close> on.
\<close>

definition int64 :: "int \<Rightarrow> int" where
  "int64 i = sint (word_of_int i :: 64 word)"

definition shl1 :: "nat \<Rightarrow> int" where
  "shl1 n = sint (push_bit n 1 :: 64 word)"

text \<open>
  \<^verbatim>\<open>image.Point\<close>, \<^verbatim>\<open>image.Rectangle\<close>, \<^verbatim>\<open>image.Rect\<close>, \<^verbatim>\<open>Rectangle.Size\<close> and
  \<^verbatim>\<open>image.Gray\<close> belong to Go's standard library; they are written out here as the
  library defines them (\<^verbatim>\<open>image.Rect\<close> swaps its corners so that \<^verbatim>\<open>Min \<le> Max\<close>).
\<close>

record ImagePoint =
  PX :: int
  PY :: int

record Rectangle =
  RMin :: ImagePoint
  RMax :: ImagePoint

definition image_Rect :: "int \<Rightarrow> int \<Rightarrow> int \<Rightarrow> int \<Rightarrow> Rectangle" where
  "image_Rect x0 y0 x1 y1 =
     (let (x0, x1) = (if x0 > x1 then (x1, x0) else (x0, x1));
          (y0, y1) = (if y0 > y1 then (y1, y0) else (y0, y1))
      in \<lparr>RMin = \<lparr>PX = x0, PY = y0\<rparr>, RMax = \<lparr>PX = x1, PY = y1\<rparr>\<rparr>)"

definition Rectangle_Size :: "Rectangle \<Rightarrow> ImagePoint" where
  "Rectangle_Size r =
     \<lparr>PX = int64 (PX (RMax r) - PX (RMin r)), PY = int64 (PY (RMax r) - PY (RMin r))\<rparr>"

record Gray =
  Pix :: "8 word list"
  Stride :: int
  Rect :: Rectangle

text \<open>
  \<^verbatim>\<open>Voctree\<close> embeds a \<^verbatim>\<open>Vocelish\<close> (the root) and an \<^verbatim>\<open>image.Rectangle\<close>; its own
  \<^verbatim>\<open>SideShift\<close> field is \<open>V_SideShift\<close> here, since \<open>SideShift\<close> names the field of
  \<open>Cube\<close>.
\<close>

record Voctree =
  V_Vocelish :: Vocelish
  V_Rectangle :: Rectangle
  V_SideShift :: "8 word"

text \<open>
  The two loops of \<^verbatim>\<open>NewVoctree\<close>: \<^verbatim>\<open>for (1 << sideShift) < size { sideShift++ }\<close>.
  For a size above \<open>2^62\<close> the loop never exits; \<open>None\<close> is the call that does not
  return.
\<close>

partial_function (option) NewVoctree_shift :: "int \<Rightarrow> nat \<Rightarrow> nat option" where
  "NewVoctree_shift sz sideShift =
     (if shl1 sideShift < sz then NewVoctree_shift sz (sideShift + 1) else Some sideShift)"

definition NewVoctree :: "int \<Rightarrow> int \<Rightarrow> Voctree option" where
  "NewVoctree sizex sizey =
     (case NewVoctree_shift sizex 0 of
        None \<Rightarrow> None
      | Some sideShift \<Rightarrow>
          (case NewVoctree_shift sizey sideShift of
             None \<Rightarrow> None
           | Some sideShift \<Rightarrow>
               Some \<lparr>V_Vocelish = Vocel1 0,
                     V_Rectangle = image_Rect 0 0 sizex sizey,
                     V_SideShift = of_nat sideShift\<rparr>))"

text \<open>
  One round of the loop of \<^verbatim>\<open>resizeSideShift\<close>: the shift is incremented (a \<^verbatim>\<open>uint8\<close>)
  and the root becomes slot 0 of a new \<^verbatim>\<open>VocelTree\<close> whose other seven slots are
  \<^verbatim>\<open>&Vocel1{}\<close>, the zero pixel.
\<close>

definition resize_step :: "Voctree \<Rightarrow> Voctree" where
  "resize_step v =
     v\<lparr>V_SideShift := V_SideShift v + 1,
       V_Vocelish := VocelTree (oct_upd (oct_fill (Vocel1 0)) 0 (V_Vocelish v))\<rparr>"

partial_function (option) resizeSideShift :: "Voctree \<Rightarrow> int \<Rightarrow> Voctree option" where
  "resizeSideShift v z =
     (if shl1 (unat (V_SideShift v)) < z then resizeSideShift (resize_step v) z else Some v)"

definition root_cube :: "Voctree \<Rightarrow> 'a Point_scheme \<Rightarrow> Cube" where
  "root_cube v point = \<lparr>X = X point, Y = Y point, Z = Z point, SideShift = V_SideShift v\<rparr>"

definition Voctree_Set :: "Voctree \<Rightarrow> Point \<Rightarrow> pixel \<Rightarrow> Voctree" where
  "Voctree_Set v point pixel =
     v\<lparr>V_Vocelish := Vocelish_Set (V_Vocelish v) (root_cube v point) pixel\<rparr>"

definition Voctree_At :: "Voctree \<Rightarrow> Point \<Rightarrow> pixel" where
  "Voctree_At v point = Vocelish_At (V_Vocelish v) (root_cube v point)"

definition Voctree_Nodes :: "Voctree \<Rightarrow> int" where
  "Voctree_Nodes v = Vocelish_Nodes (V_Vocelish v)"

text \<open>
  The nested loops of \<^verbatim>\<open>SetPlane\<close> and \<^verbatim>\<open>GetPlane\<close> visit the pairs of
  \<open>plane_coords\<close> in this order.  An index outside the slice panics in Go: the call
  does not return, \<open>None\<close>.
\<close>

definition plane_coords :: "ImagePoint \<Rightarrow> (int \<times> int) list" where
  "plane_coords sz =
     concat (map (\<lambda>y. map (\<lambda>x. (x, y)) (map int [0..<nat (PX sz)]))
                 (map int [0..<nat (PY sz)]))"

fun SetPlane_loop ::
  "Vocelish \<Rightarrow> Cube \<Rightarrow> pixel list \<Rightarrow> int \<Rightarrow> (int \<times> int) list \<Rightarrow> Vocelish option" where
  "SetPlane_loop t cube pix sizeX [] = Some t"
| "SetPlane_loop t cube pix sizeX ((x, y) # rest) =
     (let cube = cube\<lparr>X := word_of_int x, Y := word_of_int y\<rparr>;
          i = int64 (int64 (y * sizeX) + x)
      in if 0 \<le> i \<and> i < int (length pix)
         then SetPlane_loop (Vocelish_Set t cube (pix ! nat i)) cube pix sizeX rest
         else None)"

datatype error = ShapeMismatch int int

definition SetPlane :: "Voctree \<Rightarrow> int \<Rightarrow> Gray \<Rightarrow> (Voctree \<times> error option) option" where
  "SetPlane v z gray =
     (let sz = Rectangle_Size (V_Rectangle v);
          pix = Pix gray
      in if int (length pix) \<noteq> int64 (PX sz * PY sz)
         then Some (v, Some (ShapeMismatch (int64 (PX sz * PY sz)) (int (length pix))))
         else
           (case resizeSideShift v z of
              None \<Rightarrow> None
            | Some v \<Rightarrow>
                (let cube = \<lparr>X = 0, Y = 0, Z = word_of_int z, SideShift = V_SideShift v\<rparr>
                 in case SetPlane_loop (V_Vocelish v) cube pix (PX sz) (plane_coords sz) of
                      None \<Rightarrow> None
                    | Some t \<Rightarrow> Some (v\<lparr>V_Vocelish := t\<rparr>, None))))"

fun GetPlane_loop ::
  "Vocelish \<Rightarrow> Cube \<Rightarrow> pixel list \<Rightarrow> int \<Rightarrow> (int \<times> int) list \<Rightarrow> pixel list option" where
  "GetPlane_loop t cube pix sizeX [] = Some pix"
| "GetPlane_loop t cube pix sizeX ((x, y) # rest) =
     (let cube = cube\<lparr>X := word_of_int x, Y := word_of_int y\<rparr>;
          i = int64 (int64 (y * sizeX) + x)
      in if 0 \<le> i \<and> i < int (length pix)
         then GetPlane_loop t cube (pix[nat i := Vocelish_At t cube]) sizeX rest
         else None)"

definition GetPlane :: "Voctree \<Rightarrow> int \<Rightarrow> (Voctree \<times> Gray) option" where
  "GetPlane v z =
     (let sz = Rectangle_Size (V_Rectangle v)
      in case resizeSideShift v z of
           None \<Rightarrow> None
         | Some v \<Rightarrow>
             (let n = int64 (PX sz * PY sz)
              in if n < 0 then None
                 else
                   (let cube = \<lparr>X = 0, Y = 0, Z = word_of_int z, SideShift = V_SideShift v\<rparr>
                    in case GetPlane_loop (V_Vocelish v) cube (replicate (nat n) 0) (PX sz)
                              (plane_coords sz) of
                         None \<Rightarrow> None
                       | Some pix \<Rightarrow>
                           Some (v, \<lparr>Pix = pix, Stride = PX sz, Rect = V_Rectangle v\<rparr>))))"


section \<open>Predicates of the statements\<close>

text \<open>
  \<open>fits t s\<close>: the tree \<open>t\<close> is no deeper than the shift \<open>s\<close> at which it is
  addressed, so that no \<^verbatim>\<open>Vocel8\<close> or \<^verbatim>\<open>VocelTree\<close> is addressed at shift 0.
  \<open>inside cube\<close>: the coordinates lie within the side length \<open>2 ^ SideShift\<close>.
  \<open>same_point\<close>: two descriptors name the same voxel.
\<close>

fun fits :: "Vocelish \<Rightarrow> 8 word \<Rightarrow> bool" where
  "fits (Vocel1 p) s = True"
| "fits (Vocel8 ps) s = (s \<noteq> 0)"
| "fits (VocelTree subtree) s =
     (s \<noteq> 0 \<and> list_all (\<lambda>i. fits (oct_nth subtree i) (s - 1)) [0..<8])"

definition inside :: "Cube \<Rightarrow> bool" where
  "inside cube \<longleftrightarrow>
     unat (X cube) < 2 ^ unat (SideShift cube) \<and>
     unat (Y cube) < 2 ^ unat (SideShift cube) \<and>
     unat (Z cube) < 2 ^ unat (SideShift cube)"



text \<open>
  The compactness invariant of the specification: an internal node never has eight
  \<^verbatim>\<open>Vocel1\<close> subtrees, the eight values of a \<^verbatim>\<open>Vocel8\<close> are never all equal, and a
  node addressed at shift 0 is a \<^verbatim>\<open>Vocel1\<close>.
\<close>

fun compact :: "Vocelish \<Rightarrow> 8 word \<Rightarrow> bool" where
  "compact (Vocel1 p) s = True"
| "compact (Vocel8 ps) s = (s \<noteq> 0 \<and> \<not> oct_all_equal ps)"
| "compact (VocelTree subtree) s =
     (s \<noteq> 0 \<and> \<not> list_all (\<lambda>i. is_Vocel1 (oct_nth subtree i)) [0..<8]
      \<and> list_all (\<lambda>i. compact (oct_nth subtree i) (s - 1)) [0..<8])"




text \<open>
  The volumes reachable by the operations of the volume: \<^verbatim>\<open>NewVoctree\<close>, \<^verbatim>\<open>Set\<close>,
  \<^verbatim>\<open>SetPlane\<close> and \<^verbatim>\<open>GetPlane\<close> (\<^verbatim>\<open>At\<close> and \<^verbatim>\<open>Nodes\<close> leave the volume as it is).
\<close>

inductive reach :: "Voctree \<Rightarrow> bool" where
  reach_construct: "NewVoctree sizex sizey = Some v \<Longrightarrow> reach v"
| reach_write: "reach v \<Longrightarrow> reach (Voctree_Set v p c)"
| reach_set_plane: "reach v \<Longrightarrow> SetPlane v z gray = Some (v', e) \<Longrightarrow> reach v'"
| reach_get_plane: "reach v \<Longrightarrow> GetPlane v z = Some (v', gray) \<Longrightarrow> reach v'"


text \<open>
  The same, where no plane operation grows the depth of a volume whose root is a
  \<^verbatim>\<open>Vocel1\<close>: either the loop of \<^verbatim>\<open>resizeSideShift\<close> does not run, or the root it wraps
  is a \<^verbatim>\<open>Vocel8\<close> or a \<^verbatim>\<open>VocelTree\<close>.
\<close>

inductive reach_no_leaf_growth :: "Voctree \<Rightarrow> bool" where
  nlg_construct: "NewVoctree sizex sizey = Some v \<Longrightarrow> reach_no_leaf_growth v"
| nlg_write: "reach_no_leaf_growth v \<Longrightarrow> reach_no_leaf_growth (Voctree_Set v p c)"
| nlg_set_plane: "reach_no_leaf_growth v \<Longrightarrow>
     \<not> (shl1 (unat (V_SideShift v)) < z \<and> is_Vocel1 (V_Vocelish v)) \<Longrightarrow>
     SetPlane v z gray = Some (v', e) \<Longrightarrow> reach_no_leaf_growth v'"
| nlg_get_plane: "reach_no_leaf_growth v \<Longrightarrow>
     \<not> (shl1 (unat (V_SideShift v)) < z \<and> is_Vocel1 (V_Vocelish v)) \<Longrightarrow>
     GetPlane v z = Some (v', gray) \<Longrightarrow> reach_no_leaf_growth v'"






section \<open>Basic facts about arrays, addressing and \<open>Set\<close>\<close>

lemma upt_8: "[0..<8] = [0, 1, 2, 3, 4, 5, 6, 7::nat]"
  by (simp add: upt_conv_Cons)

lemma list_all_upt8: "list_all P [0..<8] \<longleftrightarrow> (\<forall>i<8. P i)"
  by (auto simp: list_all_iff)

lemma lt8_cases: "i < 8 \<Longrightarrow> i = 0 \<or> i = 1 \<or> i = 2 \<or> i = 3 \<or> i = 4 \<or> i = 5 \<or> i = 6 \<or> i = (7::nat)"
  by arith

lemma oct_nth_upd_same [simp]: "oct_nth (oct_upd a i v) i = v"
  by (cases a) simp

lemma oct_nth_upd_other: "i < 8 \<Longrightarrow> j < 8 \<Longrightarrow> i \<noteq> j \<Longrightarrow> oct_nth (oct_upd a i v) j = oct_nth a j"
  by (cases a) (auto dest!: lt8_cases)

lemma oct_nth_upd: "i < 8 \<Longrightarrow> j < 8 \<Longrightarrow> oct_nth (oct_upd a i v) j = (if i = j then v else oct_nth a j)"
  by (simp add: oct_nth_upd_other)

lemma map_oct_upd: "map_oct f (oct_upd a i v) = oct_upd (map_oct f a) i (f v)"
  by (cases a) simp

lemma oct_upd_upd [simp]: "oct_upd (oct_upd a i v) i w = oct_upd a i w"
  by (cases a) simp

lemma oct_upd_same: "oct_nth a i = v \<Longrightarrow> oct_upd a i v = a"
  by (cases a) (simp split: if_splits)

lemma oct_ext: "(\<And>i. i < 8 \<Longrightarrow> oct_nth a i = oct_nth b i) \<Longrightarrow> a = b"
proof -
  assume h: "\<And>i. i < 8 \<Longrightarrow> oct_nth a i = oct_nth b i"
  obtain a0 a1 a2 a3 a4 a5 a6 a7 where a: "a = Oct a0 a1 a2 a3 a4 a5 a6 a7" by (cases a)
  obtain b0 b1 b2 b3 b4 b5 b6 b7 where b: "b = Oct b0 b1 b2 b3 b4 b5 b6 b7" by (cases b)
  from h [of 0] h [of 1] h [of 2] h [of 3] h [of 4] h [of 5] h [of 6] h [of 7]
  show ?thesis by (simp add: a b)
qed

lemma octIndex_index_lt8: "fst (octIndex cube) < 8"
  by (simp add: octIndex_def Let_def)

lemma oct_all_equal_iff: "oct_all_equal a \<longleftrightarrow> (\<forall>i<8. oct_nth a i = oct_nth a 0)"
proof
  assume h: "oct_all_equal a"
  obtain a0 a1 a2 a3 a4 a5 a6 a7 where a: "a = Oct a0 a1 a2 a3 a4 a5 a6 a7" by (cases a)
  from h have "a = oct_fill a0" by (simp add: a oct_all_equal_def oct_fill_def)
  then show "\<forall>i<8. oct_nth a i = oct_nth a 0" by simp
next
  assume h: "\<forall>i<8. oct_nth a i = oct_nth a 0"
  obtain a0 a1 a2 a3 a4 a5 a6 a7 where a: "a = Oct a0 a1 a2 a3 a4 a5 a6 a7" by (cases a)
  have "oct_nth a 1 = oct_nth a 0" "oct_nth a 2 = oct_nth a 0" "oct_nth a 3 = oct_nth a 0"
    "oct_nth a 4 = oct_nth a 0" "oct_nth a 5 = oct_nth a 0" "oct_nth a 6 = oct_nth a 0"
    "oct_nth a 7 = oct_nth a 0"
    using h [rule_format, of 1] h [rule_format, of 2] h [rule_format, of 3] h [rule_format, of 4]
      h [rule_format, of 5] h [rule_format, of 6] h [rule_format, of 7] by simp_all
  then show "oct_all_equal a" by (simp add: a oct_all_equal_def)
qed

lemma oct_all_equal_iff': "oct_all_equal a \<longleftrightarrow> (\<forall>i<8. \<forall>j<8. oct_nth a i = oct_nth a j)"
  by (metis oct_all_equal_iff zero_less_numeral)

lemma Vocel8_allSame_iff:
  assumes "index < 8"
  shows "list_all (\<lambda>i. \<not> (index \<noteq> i \<and> oct_nth ps i \<noteq> pixel)) [0..<8]
           \<longleftrightarrow> oct_all_equal (oct_upd ps index pixel)"
proof -
  have "(\<forall>i<8. index = i \<or> oct_nth ps i = pixel) \<longleftrightarrow>
        (\<forall>i<8. oct_nth (oct_upd ps index pixel) i = pixel)"
    using assms by (auto simp: oct_nth_upd)
  also have "\<dots> \<longleftrightarrow> (\<forall>i<8. \<forall>j<8. oct_nth (oct_upd ps index pixel) i = oct_nth (oct_upd ps index pixel) j)"
    using assms by (metis oct_nth_upd_same)
  finally show ?thesis by (simp add: list_all_upt8 oct_all_equal_iff')
qed

lemma VocelTree_allSame_iff:
  "list_all (\<lambda>i. \<not> (i > 0 \<and> oct_nth a i \<noteq> oct_nth a 0)) [0..<8] \<longleftrightarrow> oct_all_equal a"
  by (auto simp: list_all_upt8 oct_all_equal_iff)

lemma Set_VocelTree:
  "Vocelish_Set (VocelTree subtree) cube pixel =
     coalesce (oct_upd subtree (fst (octIndex cube))
       (Vocelish_Set (oct_nth subtree (fst (octIndex cube))) (snd (octIndex cube)) pixel))"
  unfolding Vocelish_Set.simps Let_def coalesce_def VocelTree_allSame_iff by simp

lemma Set_Vocel8:
  "Vocelish_Set (Vocel8 ps) cube pixel =
     (if oct_nth ps (fst (octIndex cube)) = pixel then Vocel8 ps
      else if SideShift cube = 1 then
        (if oct_all_equal (oct_upd ps (fst (octIndex cube)) pixel) then Vocel1 pixel
         else Vocel8 (oct_upd ps (fst (octIndex cube)) pixel))
      else Vocelish_Set (VocelTree (map_oct Vocel1 ps)) cube pixel)"
  unfolding Vocelish_Set.simps Let_def Vocel8_allSame_iff [OF octIndex_index_lt8] by simp

lemmas Set_Vocel1 = Vocelish_Set.simps(1)

declare Vocelish_Set.simps [simp del]

lemma oct_all_equal_upd_fill:
  assumes "index < 8" "pixel \<noteq> p"
  shows "\<not> oct_all_equal (oct_upd (oct_fill p) index pixel)"
proof
  assume "oct_all_equal (oct_upd (oct_fill p) index pixel)"
  then have h: "\<forall>i<8. \<forall>j<8. oct_nth (oct_upd (oct_fill p) index pixel) i = oct_nth (oct_upd (oct_fill p) index pixel) j"
    by (rule oct_all_equal_iff' [THEN iffD1])
  define j :: nat where "j = (if index = 0 then 1 else 0)"
  have j: "j < 8" "j \<noteq> index" by (simp_all add: j_def)
  from h assms(1) j have "oct_nth (oct_upd (oct_fill p) index pixel) index = oct_nth (oct_upd (oct_fill p) index pixel) j"
    by blast
  with assms j show False by (simp add: oct_nth_upd)
qed


lemma unat_dec: "s \<noteq> 0 \<Longrightarrow> unat (s - 1) = unat s - 1" for s :: "8 word"
  by (metis unat_eq_zero unat_minus_one)

lemma side_minus_1: "(2 ^ n :: 16 word) - 1 = mask n"
  by (simp add: mask_eq_decr_exp)

lemma unat_and_mask16: "unat (w AND mask n) = unat w mod 2 ^ n" for w :: "16 word"
proof -
  have "unat (w AND mask n) = unat (take_bit n w)" by (simp add: take_bit_eq_mask)
  also have "\<dots> = take_bit n (unat w)" by (rule unsigned_take_bit_eq)
  also have "\<dots> = unat w mod 2 ^ n" by (rule take_bit_eq_mod)
  finally show ?thesis .
qed


lemma octIndex_X: "unat (X (snd (octIndex cube))) = unat (X cube) mod 2 ^ unat (SideShift cube - 1)"
  by (simp add: octIndex_def Let_def side_minus_1 unat_and_mask16)

lemma octIndex_Y: "unat (Y (snd (octIndex cube))) = unat (Y cube) mod 2 ^ unat (SideShift cube - 1)"
  by (simp add: octIndex_def Let_def side_minus_1 unat_and_mask16)

lemma octIndex_Z: "unat (Z (snd (octIndex cube))) = unat (Z cube) mod 2 ^ unat (SideShift cube - 1)"
  by (simp add: octIndex_def Let_def side_minus_1 unat_and_mask16)


lemma descent_child_less:
  "descent_bound (oct_nth subtree i) (s - 1) < descent_bound (VocelTree subtree) s"
proof -
  have "descent_bound (oct_nth subtree i) (s - 1)
      \<le> Max (set_oct (map_oct (\<lambda>f. f (s - 1)) (map_oct descent_bound subtree)))"
    using oct_nth_in_set [of "map_oct (\<lambda>f. f (s - 1)) (map_oct descent_bound subtree)" i]
    by (simp add: oct_nth_map)
  then show ?thesis by simp
qed


lemma oct_all_equalD: "oct_all_equal a \<Longrightarrow> i < 8 \<Longrightarrow> oct_nth a i = oct_nth a 0"
  using oct_all_equal_iff [of a] by blast

lemma Set_Vocel1_result: "Vocelish_Set t cube pixel = Vocel1 q \<Longrightarrow> q = pixel"
proof (induction t cube pixel arbitrary: q rule: Vocelish_Set.induct)
  case (1 p cube pixel)
  then show ?case by (simp add: Set_Vocel1 split: if_splits)
next
  case (2 ps cube pixel)
  then show ?case by (simp add: Set_Vocel8 split: if_splits)
next
  case (3 subtree cube pixel)
  let ?i = "fst (octIndex cube)"
  let ?c = "Vocelish_Set (oct_nth subtree ?i) (snd (octIndex cube)) pixel"
  let ?s = "oct_upd subtree ?i ?c"
  from 3(2) have co: "coalesce ?s = Vocel1 q" by (simp add: Set_VocelTree)
  then have all1: "\<forall>j<8. is_Vocel1 (oct_nth ?s j)" and eq: "oct_all_equal (map_oct Vocel1_pixel ?s)"
    and q: "q = Vocel1_pixel (oct_nth ?s 0)"
    by (auto simp: coalesce_def list_all_upt8 oct_nth_map split: if_splits)
  have i: "?i < 8" by (rule octIndex_index_lt8)
  from all1 i have "is_Vocel1 ?c" by (metis oct_nth_upd_same)
  then obtain r where r: "?c = Vocel1 r" by (auto simp: is_Vocel1_def)
  have "r = pixel" by (rule 3(1) [OF refl refl r])
  moreover have "Vocel1_pixel (oct_nth ?s ?i) = Vocel1_pixel (oct_nth ?s 0)"
    using oct_all_equalD [OF eq i] by (simp only: oct_nth_map)
  ultimately show ?case using q r by simp
qed

lemma Vocelish_Set_idem:
  "Vocelish_Set (Vocelish_Set t cube pixel) cube pixel = Vocelish_Set t cube pixel"
proof (induction t cube pixel rule: Vocelish_Set.induct)
  case (1 p cube pixel)
  then show ?case by (simp add: Set_Vocel1)
next
  case (2 ps cube pixel)
  then show ?case by (simp add: Set_Vocel8 Set_Vocel1)
next
  case (3 subtree cube pixel)
  let ?i = "fst (octIndex cube)"
  let ?h = "snd (octIndex cube)"
  let ?c = "Vocelish_Set (oct_nth subtree ?i) ?h pixel"
  let ?s = "oct_upd subtree ?i ?c"
  have i: "?i < 8" by (rule octIndex_index_lt8)
  have IH: "Vocelish_Set ?c ?h pixel = ?c" by (rule 3 [OF refl refl])
  have res: "Vocelish_Set (VocelTree subtree) cube pixel = coalesce ?s" by (rule Set_VocelTree)
  show ?case
  proof (cases "list_all (\<lambda>j. is_Vocel1 (oct_nth ?s j)) [0..<8]")
    case False
    then have "coalesce ?s = VocelTree ?s" by (simp add: coalesce_def)
    moreover have "Vocelish_Set (VocelTree ?s) cube pixel = coalesce ?s"
      by (simp add: Set_VocelTree IH)
    ultimately show ?thesis by (simp add: res)
  next
    case True
    then have "is_Vocel1 ?c" using i by (metis list_all_upt8 oct_nth_upd_same)
    then obtain r where r: "?c = Vocel1 r" by (auto simp: is_Vocel1_def)
    have rp: "r = pixel" by (rule Set_Vocel1_result [OF r])
    show ?thesis
    proof (cases "oct_all_equal (map_oct Vocel1_pixel ?s)")
      case True
      with \<open>list_all _ _\<close> have "coalesce ?s = Vocel1 (oct_nth (map_oct Vocel1_pixel ?s) 0)"
        by (simp add: coalesce_def)
      moreover have "Vocel1_pixel (oct_nth ?s ?i) = Vocel1_pixel (oct_nth ?s 0)"
        using oct_all_equalD [OF True i] by (simp only: oct_nth_map)
      ultimately have "coalesce ?s = Vocel1 pixel" using r rp by (simp add: oct_nth_map)
      then show ?thesis by (simp add: res Set_Vocel1)
    next
      case False
      with \<open>list_all _ _\<close> have co: "coalesce ?s = Vocel8 (map_oct Vocel1_pixel ?s)"
        by (simp add: coalesce_def)
      have "oct_nth (map_oct Vocel1_pixel ?s) ?i = pixel" using r rp by (simp add: oct_nth_map)
      then show ?thesis by (simp add: res co Set_Vocel8)
    qed
  qed
qed

lemma Set_Vocel1_as_tree:
  assumes "SideShift cube \<noteq> 0" and "pixel \<noteq> p"
  shows "Vocelish_Set (Vocel1 p) cube pixel =
         Vocelish_Set (VocelTree (oct_fill (Vocel1 p))) cube pixel"
proof (cases "SideShift cube = 1")
  case True
  let ?i = "fst (octIndex cube)"
  have i: "?i < 8" by (rule octIndex_index_lt8)
  have ne: "\<not> oct_all_equal (oct_upd (oct_fill p) ?i pixel)"
    by (rule oct_all_equal_upd_fill [OF i assms(2)])
  have lhs: "Vocelish_Set (Vocel1 p) cube pixel = Vocel8 (oct_upd (oct_fill p) ?i pixel)"
    using assms True ne by (simp add: Set_Vocel1 Set_Vocel8)
  have here: "SideShift (snd (octIndex cube)) = 0"
    using True by (simp add: octIndex_shift)
  have allv: "list_all (\<lambda>j. is_Vocel1 (oct_nth (oct_upd (oct_fill (Vocel1 p)) ?i (Vocel1 pixel)) j)) [0..<8]"
    using i by (simp add: list_all_upt8 oct_nth_upd)
  have px: "map_oct Vocel1_pixel (oct_upd (oct_fill (Vocel1 p)) ?i (Vocel1 pixel)) = oct_upd (oct_fill p) ?i pixel"
    by (simp add: map_oct_upd map_oct_fill)
  have rhs: "Vocelish_Set (VocelTree (oct_fill (Vocel1 p))) cube pixel = Vocel8 (oct_upd (oct_fill p) ?i pixel)"
    using here allv ne by (simp add: Set_VocelTree Set_Vocel1 coalesce_def px)
  show ?thesis by (simp only: lhs rhs)
next
  case False
  then show ?thesis using assms by (simp add: Set_Vocel1 Set_Vocel8 map_oct_fill)
qed









lemma fits_child: "fits (VocelTree subtree) s \<Longrightarrow> i < 8 \<Longrightarrow> fits (oct_nth subtree i) (s - 1)"
  by (simp add: list_all_upt8)

lemma fits_map_Vocel1: "s \<noteq> 0 \<Longrightarrow> fits (VocelTree (map_oct Vocel1 ps)) s"
  by (simp add: list_all_upt8 oct_nth_map)









lemma inside_root_cube: "inside (root_cube v p) \<longleftrightarrow>
  unat (X p) < 2 ^ unat (V_SideShift v) \<and> unat (Y p) < 2 ^ unat (V_SideShift v) \<and> unat (Z p) < 2 ^ unat (V_SideShift v)"
  by (simp add: inside_def root_cube_def)



lemma compact_fits: "compact t s \<Longrightarrow> fits t s"
proof (induction t arbitrary: s)
  case (VocelTree subtree)
  have "fits (oct_nth subtree i) (s - 1)" if "i < 8" for i
  proof (rule VocelTree.IH)
    show "oct_nth subtree i \<in> set_oct subtree" by (rule oct_nth_in_set)
    show "compact (oct_nth subtree i) (s - 1)"
      using VocelTree.prems that by (simp add: list_all_upt8)
  qed
  with VocelTree.prems show ?case by (simp add: list_all_upt8)
qed simp_all










lemma int64_id: "- (2 ^ 63) \<le> i \<Longrightarrow> i < 2 ^ 63 \<Longrightarrow> int64 i = i"
  by (simp add: int64_def sint_sbintrunc' signed_take_bit_int_eq_self)

lemma shl1_small: "n \<le> 62 \<Longrightarrow> shl1 n = 2 ^ n"
proof -
  assume n: "n \<le> 62"
  have "(push_bit n 1 :: 64 word) = word_of_int (2 ^ n)" by (simp add: push_bit_of_1)
  then have "shl1 n = int64 (2 ^ n)" by (simp only: shl1_def int64_def)
  moreover have "(2::int) ^ n < 2 ^ 63" using n by (intro power_strict_increasing) simp_all
  moreover have "- (2 ^ 63) \<le> (2::int) ^ n" by (rule order_trans [of _ 0]) simp_all
  ultimately show ?thesis by (simp add: int64_id)
qed

lemma unat_inc: "unat s \<le> 62 \<Longrightarrow> unat (s + 1) = unat s + 1" for s :: "8 word"
  using unat_add_lem [of s 1] by simp

lemma resize_step_simps [simp]:
  "V_SideShift (resize_step v) = V_SideShift v + 1"
  "V_Rectangle (resize_step v) = V_Rectangle v"
  "V_Vocelish (resize_step v) =
     VocelTree (Oct (V_Vocelish v) (Vocel1 0) (Vocel1 0) (Vocel1 0) (Vocel1 0) (Vocel1 0) (Vocel1 0) (Vocel1 0))"
  by (simp_all add: resize_step_def oct_fill_def)

lemma resize_stay: "\<not> shl1 (unat (V_SideShift v)) < z \<Longrightarrow> resizeSideShift v z = Some v"
  by (subst resizeSideShift.simps) simp

lemma resize_grow:
  "shl1 (unat (V_SideShift v)) < z \<Longrightarrow> resizeSideShift v z = resizeSideShift (resize_step v) z"
  by (subst resizeSideShift.simps) simp

lemma resize_result:
  assumes "resizeSideShift v z = Some v'"
  shows "\<not> shl1 (unat (V_SideShift v')) < z \<and> (\<exists>k. v' = (resize_step ^^ k) v)"
proof (rule resizeSideShift.raw_induct [OF _ assms])
  fix f :: "Voctree \<Rightarrow> int \<Rightarrow> Voctree option" and v z v'
  assume IH: "\<And>w b y. f w b = Some y \<Longrightarrow>
      \<not> shl1 (unat (V_SideShift y)) < b \<and> (\<exists>k. y = (resize_step ^^ k) w)"
  assume eq: "(if shl1 (unat (V_SideShift v)) < z then f (resize_step v) z else Some v) = Some v'"
  show "\<not> shl1 (unat (V_SideShift v')) < z \<and> (\<exists>k. v' = (resize_step ^^ k) v)"
  proof (cases "shl1 (unat (V_SideShift v)) < z")
    case True
    with eq have "f (resize_step v) z = Some v'" by simp
    from IH [OF this] obtain k where nl: "\<not> shl1 (unat (V_SideShift v')) < z"
      and "v' = (resize_step ^^ k) (resize_step v)" by blast
    then have "v' = (resize_step ^^ Suc k) v" by (simp add: funpow_swap1)
    with nl show ?thesis by blast
  next
    case False
    with eq have "v' = v" by simp
    then have "v' = (resize_step ^^ 0) v" by simp
    with False \<open>v' = v\<close> show ?thesis by blast
  qed
qed

lemma resize_total:
  "z \<le> 2 ^ 62 \<Longrightarrow> unat (V_SideShift v) \<le> 62 \<Longrightarrow>
     \<exists>v'. resizeSideShift v z = Some v' \<and> unat (V_SideShift v') \<le> 62 \<and> z \<le> 2 ^ unat (V_SideShift v')"
proof (induction "62 - unat (V_SideShift v)" arbitrary: v)
  case 0
  then have s: "unat (V_SideShift v) = 62" by simp
  then have "\<not> shl1 (unat (V_SideShift v)) < z" using 0(2) by (simp add: shl1_small)
  then have "resizeSideShift v z = Some v" by (rule resize_stay)
  with s 0(2) show ?case by simp
next
  case (Suc n)
  show ?case
  proof (cases "shl1 (unat (V_SideShift v)) < z")
    case False
    then have "resizeSideShift v z = Some v" by (rule resize_stay)
    moreover from False Suc(4) have "z \<le> 2 ^ unat (V_SideShift v)" by (simp add: shl1_small)
    ultimately show ?thesis using Suc(4) by simp
  next
    case True
    from Suc(2) have lt: "unat (V_SideShift v) < 62" by simp
    then have u: "unat (V_SideShift (resize_step v)) = unat (V_SideShift v) + 1"
      by (simp add: unat_inc)
    with Suc(2) lt have "n = 62 - unat (V_SideShift (resize_step v))"
      and "unat (V_SideShift (resize_step v)) \<le> 62" by simp_all
    from Suc(1) [OF this(1) Suc(3) this(2)] show ?thesis
      by (simp add: resize_grow [OF True])
  qed
qed








lemma shl1_le: "shl1 n \<le> 2 ^ 62"
proof -
  consider "n \<le> 62" | "n = 63" | "64 \<le> n" by arith
  then show ?thesis
  proof cases
    case 1
    then have "(2::int) ^ n \<le> 2 ^ 62" by (intro power_increasing) simp_all
    with 1 show ?thesis by (simp add: shl1_small)
  next
    case 2
    then show ?thesis by (simp add: shl1_def)
  next
    case 3
    then have h: "(2 ^ n :: 64 word) = 0" by simp
    have "shl1 n = sint (0 :: 64 word)" by (simp only: shl1_def push_bit_of_1 h)
    then show ?thesis by simp
  qed
qed

lemma resize_bound:
  assumes "resizeSideShift v z = Some v'"
  shows "z \<le> 2 ^ 62"
proof -
  from resize_result [OF assms] have "z \<le> shl1 (unat (V_SideShift v'))" by simp
  also have "\<dots> \<le> 2 ^ 62" by (rule shl1_le)
  finally show ?thesis .
qed

lemma resize_shift_le:
  assumes "resizeSideShift v z = Some v'" "unat (V_SideShift v) \<le> 62"
  shows "unat (V_SideShift v') \<le> 62 \<and> z \<le> 2 ^ unat (V_SideShift v')"
  using resize_total [OF resize_bound [OF assms(1)] assms(2)] assms(1) by auto

lemma fits_Set: "fits t (SideShift cube) \<Longrightarrow> fits (Vocelish_Set t cube pixel) (SideShift cube)"
proof (induction t cube pixel rule: Vocelish_Set.induct)
  case (1 p cube pixel)
  then show ?case by (simp add: Set_Vocel1)
next
  case (2 ps cube pixel)
  from 2(2) have nz: "SideShift cube \<noteq> 0" by simp
  show ?case
  proof (cases "oct_nth ps (fst (octIndex cube)) = pixel \<or> SideShift cube = 1")
    case True
    with nz show ?thesis by (auto simp: Set_Vocel8)
  next
    case False
    then have "fits (Vocelish_Set (VocelTree (map_oct Vocel1 ps)) cube pixel) (SideShift cube)"
      using 2(1) [OF refl _ _ fits_map_Vocel1 [OF nz]] by blast
    with False show ?thesis by (simp add: Set_Vocel8)
  qed
next
  case (3 subtree cube pixel)
  let ?i = "fst (octIndex cube)"
  let ?c = "Vocelish_Set (oct_nth subtree ?i) (snd (octIndex cube)) pixel"
  let ?s = "oct_upd subtree ?i ?c"
  have i: "?i < 8" by (rule octIndex_index_lt8)
  from 3(2) have nz: "SideShift cube \<noteq> 0" by simp
  have "fits (oct_nth subtree ?i) (SideShift (snd (octIndex cube)))"
    using fits_child [OF 3(2) i] by (simp add: octIndex_shift)
  from 3(1) [OF refl refl this] have fc: "fits ?c (SideShift cube - 1)" by (simp add: octIndex_shift)
  have "fits (oct_nth ?s j) (SideShift cube - 1)" if "j < 8" for j
  proof (cases "j = ?i")
    case True
    then show ?thesis using fc by simp
  next
    case False
    then have "oct_nth ?s j = oct_nth subtree j" using i that by (simp add: oct_nth_upd)
    then show ?thesis using fits_child [OF 3(2) that] by simp
  qed
  then have "fits (VocelTree ?s) (SideShift cube)" using nz by (simp add: list_all_upt8)
  then have "fits (coalesce ?s) (SideShift cube)" using nz by (simp add: coalesce_def)
  then show ?case by (simp add: Set_VocelTree)
qed

lemma NewVoctree_shift_exit:
  assumes "NewVoctree_shift sz n = Some r"
  shows "\<not> shl1 r < sz"
proof (rule NewVoctree_shift.raw_induct [OF _ assms])
  fix f :: "int \<Rightarrow> nat \<Rightarrow> nat option" and sz n r
  assume IH: "\<And>a b y. f a b = Some y \<Longrightarrow> \<not> shl1 y < a"
  assume eq: "(if shl1 n < sz then f sz (n + 1) else Some n) = Some r"
  show "\<not> shl1 r < sz"
  proof (cases "shl1 n < sz")
    case True
    with eq have "f sz (n + 1) = Some r" by simp
    then show ?thesis by (rule IH)
  next
    case False
    with eq show ?thesis by simp
  qed
qed

lemma NewVoctree_shift_le_aux:
  assumes "NewVoctree_shift sz n = Some r"
  shows "sz \<le> 2 ^ 62 \<and> n \<le> 62 \<longrightarrow> r \<le> 62"
proof (rule NewVoctree_shift.raw_induct [OF _ assms])
  fix f :: "int \<Rightarrow> nat \<Rightarrow> nat option" and sz n r
  assume IH: "\<And>a b y. f a b = Some y \<Longrightarrow> a \<le> 2 ^ 62 \<and> b \<le> 62 \<longrightarrow> y \<le> 62"
  assume eq: "(if shl1 n < sz then f sz (n + 1) else Some n) = Some r"
  show "sz \<le> 2 ^ 62 \<and> n \<le> 62 \<longrightarrow> r \<le> 62"
  proof (cases "shl1 n < sz")
    case True
    with eq have r: "f sz (n + 1) = Some r" by simp
    show ?thesis
    proof
      assume a: "sz \<le> 2 ^ 62 \<and> n \<le> 62"
      have "n \<noteq> 62"
      proof
        assume "n = 62"
        with True have "(2::int) ^ 62 < sz" by (simp add: shl1_small)
        with a show False by simp
      qed
      with a have "sz \<le> 2 ^ 62 \<and> n + 1 \<le> 62" by simp
      with IH [OF r] show "r \<le> 62" by blast
    qed
  next
    case False
    with eq show ?thesis by simp
  qed
qed

lemma NewVoctree_shift_le:
  assumes "NewVoctree_shift sz n = Some r" "n \<le> 62"
  shows "r \<le> 62"
proof -
  from NewVoctree_shift_exit [OF assms(1)] have "sz \<le> shl1 r" by simp
  also have "\<dots> \<le> 2 ^ 62" by (rule shl1_le)
  finally show ?thesis using NewVoctree_shift_le_aux [OF assms(1)] assms(2) by blast
qed

lemma NewVoctree_result:
  assumes "NewVoctree sizex sizey = Some v"
  shows "V_Vocelish v = Vocel1 0 \<and> unat (V_SideShift v) \<le> 62"
proof -
  from assms obtain a b where a: "NewVoctree_shift sizex 0 = Some a"
    and b: "NewVoctree_shift sizey a = Some b"
    and v: "v = \<lparr>V_Vocelish = Vocel1 0, V_Rectangle = image_Rect 0 0 sizex sizey, V_SideShift = of_nat b\<rparr>"
    by (auto simp: NewVoctree_def split: option.splits)
  have "a \<le> 62" using NewVoctree_shift_le [OF a] by simp
  then have "b \<le> 62" by (rule NewVoctree_shift_le [OF b])
  then have "unat (of_nat b :: 8 word) = b" by (simp add: unat_of_nat)
  with \<open>b \<le> 62\<close> show ?thesis by (simp add: v)
qed

lemma SetPlane_loop_invariant:
  assumes step: "\<And>t c px. SideShift c = s \<Longrightarrow> P t \<Longrightarrow> P (Vocelish_Set t c px)"
  shows "P t \<Longrightarrow> SideShift cube = s \<Longrightarrow> SetPlane_loop t cube pix sx cs = Some t' \<Longrightarrow> P t'"
proof (induction cs arbitrary: t cube)
  case Nil
  then show ?case by simp
next
  case (Cons a cs)
  obtain x y where a: "a = (x, y)" by (cases a)
  let ?cube = "cube\<lparr>X := word_of_int x, Y := word_of_int y\<rparr>"
  let ?i = "int64 (int64 (y * sx) + x)"
  from Cons.prems(3) have ok: "0 \<le> ?i \<and> ?i < int (length pix)"
    and r: "SetPlane_loop (Vocelish_Set t ?cube (pix ! nat ?i)) ?cube pix sx cs = Some t'"
    by (simp_all add: a Let_def split: if_splits)
  have c: "SideShift ?cube = s" using Cons.prems(2) by simp
  have "P (Vocelish_Set t ?cube (pix ! nat ?i))" by (rule step [OF c Cons.prems(1)])
  from Cons.IH [OF this c r] show ?case .
qed

lemma SetPlane_result:
  assumes "SetPlane v z gray = Some (v', e)"
  shows "(e \<noteq> None \<and> v' = v)
       \<or> (e = None \<and> (\<exists>w t. resizeSideShift v z = Some w \<and> v' = w\<lparr>V_Vocelish := t\<rparr>
            \<and> SetPlane_loop (V_Vocelish w) \<lparr>X = 0, Y = 0, Z = word_of_int z, SideShift = V_SideShift w\<rparr>
                 (Pix gray) (PX (Rectangle_Size (V_Rectangle v))) (plane_coords (Rectangle_Size (V_Rectangle v)))
                = Some t))"
  using assms by (auto simp: SetPlane_def Let_def split: if_splits option.splits)

lemma GetPlane_result:
  assumes "GetPlane v z = Some (v', g)"
  shows "resizeSideShift v z = Some v'"
  using assms by (auto simp: GetPlane_def Let_def split: if_splits option.splits)

lemma resize_step_fits:
  assumes "fits (V_Vocelish v) (V_SideShift v)" "unat (V_SideShift v) < 62"
  shows "fits (V_Vocelish (resize_step v)) (V_SideShift (resize_step v))"
proof -
  have "unat (V_SideShift v + 1) = unat (V_SideShift v) + 1" using assms(2) by (simp add: unat_inc)
  then have "V_SideShift v + 1 \<noteq> 0" by (metis Suc_eq_plus1 nat.simps(3) unat_0)
  with assms(1) show ?thesis by (simp add: upt_8)
qed

lemma resize_invariant_aux:
  assumes r: "resizeSideShift v z = Some v'"
    and step: "\<And>w. P w \<Longrightarrow> unat (V_SideShift w) < 62 \<Longrightarrow> P (resize_step w)"
  shows "z \<le> 2 ^ 62 \<and> P v \<and> unat (V_SideShift v) \<le> 62 \<longrightarrow> P v' \<and> unat (V_SideShift v') \<le> 62"
proof (rule resizeSideShift.raw_induct [OF _ r])
  fix f :: "Voctree \<Rightarrow> int \<Rightarrow> Voctree option" and v z v'
  assume IH: "\<And>w b y. f w b = Some y \<Longrightarrow>
      b \<le> 2 ^ 62 \<and> P w \<and> unat (V_SideShift w) \<le> 62 \<longrightarrow> P y \<and> unat (V_SideShift y) \<le> 62"
  assume eq: "(if shl1 (unat (V_SideShift v)) < z then f (resize_step v) z else Some v) = Some v'"
  show "z \<le> 2 ^ 62 \<and> P v \<and> unat (V_SideShift v) \<le> 62 \<longrightarrow> P v' \<and> unat (V_SideShift v') \<le> 62"
  proof (cases "shl1 (unat (V_SideShift v)) < z")
    case False
    with eq show ?thesis by simp
  next
    case True
    with eq have fr: "f (resize_step v) z = Some v'" by simp
    show ?thesis
    proof
      assume a: "z \<le> 2 ^ 62 \<and> P v \<and> unat (V_SideShift v) \<le> 62"
      have "unat (V_SideShift v) \<noteq> 62"
      proof
        assume "unat (V_SideShift v) = 62"
        with True have "(2::int) ^ 62 < z" by (simp add: shl1_small)
        with a show False by simp
      qed
      with a have lt: "unat (V_SideShift v) < 62" by simp
      then have "unat (V_SideShift (resize_step v)) \<le> 62" by (simp add: unat_inc)
      moreover have "P (resize_step v)" using a lt by (intro step) simp_all
      ultimately show "P v' \<and> unat (V_SideShift v') \<le> 62" using IH [OF fr] a by blast
    qed
  qed
qed

lemma resize_invariant:
  assumes "resizeSideShift v z = Some v'"
    and "\<And>w. P w \<Longrightarrow> unat (V_SideShift w) < 62 \<Longrightarrow> P (resize_step w)"
    and "P v" and "unat (V_SideShift v) \<le> 62"
  shows "P v' \<and> unat (V_SideShift v') \<le> 62"
  using resize_invariant_aux [of v z v' P, OF assms(1) assms(2)] resize_bound [OF assms(1)] assms(3,4)
  by blast

lemma resize_fits:
  assumes "resizeSideShift v z = Some v'" "fits (V_Vocelish v) (V_SideShift v)" "unat (V_SideShift v) \<le> 62"
  shows "fits (V_Vocelish v') (V_SideShift v') \<and> unat (V_SideShift v') \<le> 62"
proof (rule resize_invariant [where P = "\<lambda>w. fits (V_Vocelish w) (V_SideShift w)", OF assms(1) _ assms(2,3)])
  fix w :: Voctree
  assume "fits (V_Vocelish w) (V_SideShift w)" "unat (V_SideShift w) < 62"
  then show "fits (V_Vocelish (resize_step w)) (V_SideShift (resize_step w))" by (rule resize_step_fits)
qed

lemma SetPlane_fits:
  assumes "SetPlane v z gray = Some (v', e)" "fits (V_Vocelish v) (V_SideShift v)" "unat (V_SideShift v) \<le> 62"
  shows "fits (V_Vocelish v') (V_SideShift v') \<and> unat (V_SideShift v') \<le> 62"
proof -
  from SetPlane_result [OF assms(1)] show ?thesis
  proof (elim disjE conjE exE)
    assume "v' = v"
    with assms(2,3) show ?thesis by simp
  next
    fix w t
    assume w: "resizeSideShift v z = Some w" and v': "v' = w\<lparr>V_Vocelish := t\<rparr>"
      and l: "SetPlane_loop (V_Vocelish w) \<lparr>X = 0, Y = 0, Z = word_of_int z, SideShift = V_SideShift w\<rparr>
                 (Pix gray) (PX (Rectangle_Size (V_Rectangle v))) (plane_coords (Rectangle_Size (V_Rectangle v)))
                = Some t"
    from resize_fits [OF w assms(2,3)] have fw: "fits (V_Vocelish w) (V_SideShift w)" and sw: "unat (V_SideShift w) \<le> 62" by blast+
    have "fits t (V_SideShift w)"
    proof (rule SetPlane_loop_invariant [where P = "\<lambda>t. fits t (V_SideShift w)" and s = "V_SideShift w", OF _ _ _ l])
      show "fits (V_Vocelish w) (V_SideShift w)" by (rule fw)
      show "SideShift \<lparr>X = 0, Y = 0, Z = word_of_int z, SideShift = V_SideShift w\<rparr> = V_SideShift w" by simp
    next
      fix t and c :: Cube and px
      assume "SideShift c = V_SideShift w" "fits t (V_SideShift w)"
      then show "fits (Vocelish_Set t c px) (V_SideShift w)" using fits_Set [of t c px] by simp
    qed
    with sw show ?thesis by (simp add: v')
  qed
qed

lemma reach_fits_aux: "reach v \<Longrightarrow> fits (V_Vocelish v) (V_SideShift v) \<and> unat (V_SideShift v) \<le> 62"
proof (induction rule: reach.induct)
  case (reach_construct sizex sizey v)
  from NewVoctree_result [OF this] show ?case by simp
next
  case (reach_write v p c)
  then show ?case using fits_Set [of "V_Vocelish v" "root_cube v p" c]
    by (simp add: Voctree_Set_def root_cube_def)
next
  case (reach_set_plane v z gray v' e)
  then show ?case using SetPlane_fits by blast
next
  case (reach_get_plane v z v' gray)
  then show ?case using resize_fits [OF GetPlane_result] by blast
qed

lemma reach_fits: "reach v \<Longrightarrow> fits (V_Vocelish v) (V_SideShift v)"
  using reach_fits_aux [of v] by simp

lemma compact_child: "compact (VocelTree subtree) s \<Longrightarrow> i < 8 \<Longrightarrow> compact (oct_nth subtree i) (s - 1)"
  by (simp add: list_all_upt8)








lemma nlg_reach: "reach_no_leaf_growth v \<Longrightarrow> reach v"
  by (induction rule: reach_no_leaf_growth.induct) (auto intro: reach.intros)















section \<open>The write of a \<^verbatim>\<open>Vocel8\<close>\<close>

text \<open>
  Claim C7.  A write to a \<^verbatim>\<open>Vocel8\<close> whose stored pixel at the computed octant index
  differs from the new pixel: at \<open>SideShift = 1\<close> the node becomes a \<^verbatim>\<open>Vocel1\<close> of the
  new pixel when replacing that one entry makes all eight values equal, and otherwise
  stays a \<^verbatim>\<open>Vocel8\<close> with the entry replaced; at any other shift the result is that
  of the write to the \<^verbatim>\<open>VocelTree\<close> whose eight subtrees are \<^verbatim>\<open>Vocel1\<close> nodes of the
  eight stored pixels.
\<close>

theorem Vocel8_Set_cases:
  assumes "oct_nth ps (fst (octIndex cube)) \<noteq> pixel"
  shows "(SideShift cube = 1 \<and> oct_all_equal (oct_upd ps (fst (octIndex cube)) pixel)
            \<longrightarrow> Vocelish_Set (Vocel8 ps) cube pixel = Vocel1 pixel)
       \<and> (SideShift cube = 1 \<and> \<not> oct_all_equal (oct_upd ps (fst (octIndex cube)) pixel)
            \<longrightarrow> Vocelish_Set (Vocel8 ps) cube pixel = Vocel8 (oct_upd ps (fst (octIndex cube)) pixel))
       \<and> (SideShift cube \<noteq> 1
            \<longrightarrow> Vocelish_Set (Vocel8 ps) cube pixel =
                Vocelish_Set (VocelTree (map_oct Vocel1 ps)) cube pixel)"
  using assms by (simp add: Set_Vocel8)


theorem Vocel8_Set_cases_witness:
  "Vocelish_Set (Vocel8 (Oct 7 7 7 7 7 3 7 7)) \<lparr>X = 1, Y = 0, Z = 1, SideShift = 1\<rparr> 7 = Vocel1 7
   \<and> Vocelish_Set (Vocel8 (Oct 7 7 7 7 7 3 7 7)) \<lparr>X = 1, Y = 0, Z = 1, SideShift = 1\<rparr> 9
       = Vocel8 (Oct 7 7 7 7 7 9 7 7)
   \<and> Vocelish_Set (Vocel8 (Oct 7 7 7 7 7 3 7 7)) \<lparr>X = 2, Y = 0, Z = 2, SideShift = 2\<rparr> 9
       = Vocelish_Set (VocelTree (Oct (Vocel1 7) (Vocel1 7) (Vocel1 7) (Vocel1 7) (Vocel1 7)
           (Vocel1 3) (Vocel1 7) (Vocel1 7))) \<lparr>X = 2, Y = 0, Z = 2, SideShift = 2\<rparr> 9"
  using Vocel8_Set_cases [of "Oct 7 7 7 7 7 3 7 7" "\<lparr>X = 1, Y = 0, Z = 1, SideShift = 1\<rparr>" 7]
    Vocel8_Set_cases [of "Oct 7 7 7 7 7 3 7 7" "\<lparr>X = 1, Y = 0, Z = 1, SideShift = 1\<rparr>" 9]
    Vocel8_Set_cases [of "Oct 7 7 7 7 7 3 7 7" "\<lparr>X = 2, Y = 0, Z = 2, SideShift = 2\<rparr>" 9]
  by (simp add: octIndex_def oct_all_equal_def)

section \<open>The split of a \<^verbatim>\<open>Vocel1\<close>\<close>

text \<open>
  Claim C8.  A write to a \<^verbatim>\<open>Vocel1\<close> at a shift other than 0 with a pixel different
  from the stored one returns what the write to a \<^verbatim>\<open>VocelTree\<close> of eight \<^verbatim>\<open>Vocel1\<close>
  nodes carrying the stored pixel returns.  (The source reaches it through a
  \<^verbatim>\<open>Vocel8\<close> filled with the stored pixel.)
\<close>

theorem Vocel1_Set_split:
  assumes "SideShift cube \<noteq> 0" and "pixel \<noteq> p"
  shows "Vocelish_Set (Vocel1 p) cube pixel =
         Vocelish_Set (VocelTree (oct_fill (Vocel1 p))) cube pixel"
  using assms by (rule Set_Vocel1_as_tree)

theorem Vocel1_Set_split_witness:
  "SideShift \<lparr>X = 1, Y = 0, Z = 1, SideShift = 1\<rparr> \<noteq> 0 \<and> (9 :: pixel) \<noteq> 7
   \<and> Vocelish_Set (VocelTree (oct_fill (Vocel1 7))) \<lparr>X = 1, Y = 0, Z = 1, SideShift = 1\<rparr> 9
       = Vocel8 (Oct 7 7 7 7 7 9 7 7)"
  using Vocel1_Set_split [of "\<lparr>X = 1, Y = 0, Z = 1, SideShift = 1\<rparr>" 9 7]
  by (simp add: Set_Vocel1 Set_Vocel8 octIndex_def oct_all_equal_def oct_fill_def)

section \<open>Octant addressing stays in bounds\<close>

text \<open>
  Claim C9.  For a cube descriptor with \<open>SideShift \<ge> 1\<close> and arbitrary 16-bit
  coordinates, \<open>octIndex\<close> returns an index below 8 and a descriptor whose shift is one
  less and whose coordinates are all below \<open>2 ^ (SideShift - 1)\<close>.  So the slot read
  during a descent exists, and the descent into that slot decreases the measure
  \<open>descent_bound\<close> on which the recursion of \<open>Vocelish_Set\<close> terminates
  (\<open>Vocelish_At\<close> recurses on the subtree).
\<close>

theorem octIndex_bounds:
  assumes "1 \<le> SideShift cube"
  shows "fst (octIndex cube) < 8
       \<and> SideShift (snd (octIndex cube)) = SideShift cube - 1
       \<and> unat (SideShift (snd (octIndex cube))) = unat (SideShift cube) - 1
       \<and> unat (X (snd (octIndex cube))) < 2 ^ (unat (SideShift cube) - 1)
       \<and> unat (Y (snd (octIndex cube))) < 2 ^ (unat (SideShift cube) - 1)
       \<and> unat (Z (snd (octIndex cube))) < 2 ^ (unat (SideShift cube) - 1)
       \<and> descent_bound (oct_nth subtree (fst (octIndex cube))) (SideShift (snd (octIndex cube)))
           < descent_bound (VocelTree subtree) (SideShift cube)"
proof -
  from assms have nz: "SideShift cube \<noteq> 0" by auto
  have d: "unat (SideShift cube - 1) = unat (SideShift cube) - 1"
    by (rule unat_dec [OF nz])
  have pos: "0 < (2::nat) ^ (unat (SideShift cube) - 1)" by simp
  have "descent_bound (oct_nth subtree (fst (octIndex cube))) (SideShift (snd (octIndex cube)))
          < descent_bound (VocelTree subtree) (SideShift cube)"
    by (simp only: octIndex_shift descent_child_less)
  moreover have "unat (X (snd (octIndex cube))) < 2 ^ (unat (SideShift cube) - 1)"
    by (simp only: octIndex_X d mod_less_divisor [OF pos])
  moreover have "unat (Y (snd (octIndex cube))) < 2 ^ (unat (SideShift cube) - 1)"
    by (simp only: octIndex_Y d mod_less_divisor [OF pos])
  moreover have "unat (Z (snd (octIndex cube))) < 2 ^ (unat (SideShift cube) - 1)"
    by (simp only: octIndex_Z d mod_less_divisor [OF pos])
  moreover have "unat (SideShift (snd (octIndex cube))) = unat (SideShift cube) - 1"
    by (simp only: octIndex_shift d)
  ultimately show ?thesis
    using octIndex_index_lt8 [of cube] octIndex_shift [of cube] by blast
qed

theorem octIndex_bounds_witness:
  "(1::8 word) \<le> SideShift \<lparr>X = 65535, Y = 3, Z = 1, SideShift = 1\<rparr>
   \<and> fst (octIndex \<lparr>X = 65535, Y = 3, Z = 1, SideShift = 1\<rparr>) = 7
   \<and> snd (octIndex \<lparr>X = 65535, Y = 3, Z = 1, SideShift = 1\<rparr>) = \<lparr>X = 0, Y = 0, Z = 0, SideShift = 0\<rparr>"
  using octIndex_bounds [of "\<lparr>X = 65535, Y = 3, Z = 1, SideShift = 1\<rparr>" "oct_fill (Vocel1 0)"]
  by (simp add: octIndex_def)

section \<open>Writing the same pixel twice\<close>

text \<open>
  Claim C6.  Performing the write of pixel \<open>c\<close> at point \<open>p\<close> twice in succession
  leaves the volume exactly as one such write leaves it: the same root (hence the same
  node count and the same pixel read at every point), the same shift and rectangle.
\<close>

theorem Voctree_Set_twice:
  "Voctree_Set (Voctree_Set v p c) p c = Voctree_Set v p c
   \<and> Voctree_Nodes (Voctree_Set (Voctree_Set v p c) p c) = Voctree_Nodes (Voctree_Set v p c)
   \<and> Voctree_At (Voctree_Set (Voctree_Set v p c) p c) q = Voctree_At (Voctree_Set v p c) q"
proof -
  have "Voctree_Set (Voctree_Set v p c) p c = Voctree_Set v p c"
    by (simp add: Voctree_Set_def root_cube_def Vocelish_Set_idem)
  then show ?thesis by simp
qed

theorem Voctree_Set_twice_witness:
  "Voctree_Set (Voctree_Set \<lparr>V_Vocelish = Vocel1 0, V_Rectangle = image_Rect 0 0 2 2, V_SideShift = 1\<rparr>
       \<lparr>X = 1, Y = 0, Z = 1\<rparr> 9) \<lparr>X = 1, Y = 0, Z = 1\<rparr> 9
   = \<lparr>V_Vocelish = Vocel8 (Oct 0 0 0 0 0 9 0 0), V_Rectangle = image_Rect 0 0 2 2, V_SideShift = 1\<rparr>"
  using Voctree_Set_twice [of "\<lparr>V_Vocelish = Vocel1 0, V_Rectangle = image_Rect 0 0 2 2, V_SideShift = 1\<rparr>"
      "\<lparr>X = 1, Y = 0, Z = 1\<rparr>" 9 "\<lparr>X = 0, Y = 0, Z = 0\<rparr>"]
  by (simp add: Voctree_Set_def root_cube_def Set_Vocel1 Set_Vocel8 octIndex_def
      oct_all_equal_def oct_fill_def)

section \<open>Splitting a uniform volume\<close>





section \<open>The compactness invariant\<close>





section \<open>Filling a volume with one value\<close>






end
